theory Spec2Isabelle
  imports Main "HOL-Library.AList"
begin

section \<open>Values, exceptions and text\<close>

text \<open>
  Python's dynamically typed values (the \<^verbatim>\<open>Any\<close> of \<^verbatim>\<open>dict[str, Any]\<close>): what a
  variables bag, a metadata map, an error's \<^verbatim>\<open>details\<close> and a parsed response body hold.
  A \<^verbatim>\<open>dict\<close> is an association list in insertion order; \<open>map_of\<close> reads a key and
  \<open>AList.update\<close> stores one (in place when the key exists, at the end otherwise).
\<close>

datatype jv =
    JNone
  | JBool bool
  | JInt int
  | JStr string
  | JList "jv list"
  | JDict "(string \<times> jv) list"

type_synonym dict = "(string \<times> jv) list"

text \<open>
  The exceptions of \<^verbatim>\<open>src/utils/exceptions.py\<close> that the core raises (message and
  \<^verbatim>\<open>details\<close>), botocore's \<^verbatim>\<open>ClientError\<close> (the \<^verbatim>\<open>Code\<close> and \<^verbatim>\<open>Message\<close> of
  \<^verbatim>\<open>e.response["Error"]\<close>, either possibly absent, and \<^verbatim>\<open>str(e)\<close>), the builtin
  \<^verbatim>\<open>ConnectionError\<close>, \<^verbatim>\<open>asyncio.TimeoutError\<close>, and any other \<^verbatim>\<open>Exception\<close>
  with its \<^verbatim>\<open>str()\<close>.
\<close>

datatype exn =
    AgentExecutionError string dict
  | AgentTimeoutError string dict
  | BedrockError string dict
  | ClientError "string option" "string option" string
  | ConnectionError string
  | TimeoutError string
  | OtherException string

fun exn_str :: "exn \<Rightarrow> string" where
  "exn_str (AgentExecutionError m d) = m"
| "exn_str (AgentTimeoutError m d) = m"
| "exn_str (BedrockError m d) = m"
| "exn_str (ClientError code msg s) = s"
| "exn_str (ConnectionError s) = s"
| "exn_str (TimeoutError s) = s"
| "exn_str (OtherException s) = s"

text \<open>Decimal digits, \<^verbatim>\<open>str(n)\<close> of an integer, and zero padding to a fixed width.\<close>

definition digit :: "nat \<Rightarrow> char" where
  "digit d = char_of (48 + d)"

function str_nat :: "nat \<Rightarrow> string" where
  "str_nat n = (if n < 10 then [digit n] else str_nat (n div 10) @ [digit (n mod 10)])"
  by pat_completeness auto
termination
  by (relation "measure id") auto

definition str_int :: "int \<Rightarrow> string" where
  "str_int i = (if i < 0 then CHR ''-'' # str_nat (nat (- i)) else str_nat (nat i))"

section \<open>The strand context (strand\_agent.py)\<close>

datatype StrandState = IDLE | RUNNING | PAUSED | COMPLETED | FAILED | TIMEOUT

fun state_value :: "StrandState \<Rightarrow> string" where
  "state_value IDLE = ''idle''"
| "state_value RUNNING = ''running''"
| "state_value PAUSED = ''paused''"
| "state_value COMPLETED = ''completed''"
| "state_value FAILED = ''failed''"
| "state_value TIMEOUT = ''timeout''"

text \<open>A naive \<^verbatim>\<open>datetime\<close>, as \<^verbatim>\<open>datetime.utcnow()\<close> returns it.\<close>

record datetime =
  year :: nat
  month :: nat
  day :: nat
  hour :: nat
  minute :: nat
  second :: nat
  microsecond :: nat

record StrandMessage =
  role :: string
  content :: string
  timestamp :: datetime
  metadata :: dict

record StrandContext =
  strand_id :: string
  session_id :: string
  state :: StrandState
  messages :: "StrandMessage list"
  variables :: dict
  iteration :: int
  max_iterations :: int
  start_time :: "datetime option"
  end_time :: "datetime option"
  error :: "string option"

text \<open>The settings the core reads (\<^verbatim>\<open>config/settings.py\<close>).\<close>

record Settings =
  settings_max_iterations :: int
  agent_timeout :: int
  bedrock_agent_id :: "string option"
  bedrock_agent_alias_id :: "string option"
  bedrock_knowledge_base_id :: "string option"

text \<open>
  What one call of \<^verbatim>\<open>execute\<close> reads from outside the program: the two \<^verbatim>\<open>uuid4()\<close>
  values of a new context, and the readings of \<^verbatim>\<open>datetime.utcnow()\<close> for the initial
  message, for \<^verbatim>\<open>start_time\<close> and for \<^verbatim>\<open>end_time\<close>.
\<close>

record Env =
  uuid_strand :: string
  uuid_session :: string
  now_message :: datetime
  now_start :: datetime
  now_end :: datetime

definition add_message :: "StrandContext \<Rightarrow> string \<Rightarrow> string \<Rightarrow> dict option \<Rightarrow> datetime \<Rightarrow> StrandContext" where
  "add_message c r txt md now =
     c\<lparr>messages := messages c @
          [\<lparr>role = r, content = txt, timestamp = now,
            metadata = (case md of None \<Rightarrow> [] | Some d \<Rightarrow> d)\<rparr>]\<rparr>"

definition new_context :: "Settings \<Rightarrow> Env \<Rightarrow> StrandContext" where
  "new_context s env =
     \<lparr>strand_id = uuid_strand env, session_id = uuid_session env, state = IDLE,
      messages = [], variables = [], iteration = 0,
      max_iterations = settings_max_iterations s,
      start_time = None, end_time = None, error = None\<rparr>"

section \<open>The strand engine (StrandAgent)\<close>

text \<open>
  The two abstract methods of \<^verbatim>\<open>StrandAgent\<close>. A policy runs against a world \<open>'w\<close> (the
  agent object's own state and whatever it calls) and the context object, which Python
  passes by reference: each method returns what it returned or raised, the context as it
  left it, and the world. \<^verbatim>\<open>process_step\<close> is taken to return the object it was given,
  as \<^verbatim>\<open>LearningAgent.process_step\<close> does. The deadline of \<^verbatim>\<open>asyncio.wait_for\<close> firing
  while a step is suspended is that step raising \<open>TimeoutError\<close>.
\<close>

record 'w StepPolicy =
  should_continue :: "'w \<Rightarrow> StrandContext \<Rightarrow> (exn + bool) \<times> StrandContext \<times> 'w"
  process_step :: "'w \<Rightarrow> StrandContext \<Rightarrow> (exn + unit) \<times> StrandContext \<times> 'w"

definition budget_exceeded :: "StrandContext \<Rightarrow> exn" where
  "budget_exceeded c =
     AgentExecutionError
       (''Maximum iterations ('' @ str_int (max_iterations c) @ '') exceeded'')
       [(''strand_id'', JStr (strand_id c)), (''iterations'', JInt (iteration c))]"

text \<open>
  \<^verbatim>\<open>_execute_loop\<close>. The last component counts the calls of \<^verbatim>\<open>process_step\<close> (line 247)
  made so far. The loop need not end, so it returns an option: \<open>None\<close> is a loop that
  runs forever.
\<close>

partial_function (option) execute_loop ::
  "'w StepPolicy \<Rightarrow> 'w \<Rightarrow> StrandContext \<Rightarrow> nat \<Rightarrow> ((exn + unit) \<times> StrandContext \<times> 'w \<times> nat) option"
where
  "execute_loop p w c n =
     (case should_continue p w c of
        (Inl e, c1, w1) \<Rightarrow> Some (Inl e, c1, w1, n)
      | (Inr go, c1, w1) \<Rightarrow>
          if \<not> go then Some (Inr (), c1, w1, n)
          else if iteration c1 \<ge> max_iterations c1 then Some (Inl (budget_exceeded c1), c1, w1, n)
          else (case process_step p w1 c1 of
                  (Inl e, c2, w2) \<Rightarrow> Some (Inl e, c2, w2, Suc n)
                | (Inr u, c2, w2) \<Rightarrow>
                    execute_loop p w2 (c2\<lparr>iteration := iteration c2 + 1\<rparr>) (Suc n)))"

text \<open>What a call of the engine leaves behind.\<close>

record 'w Run =
  result :: "exn + StrandContext"
  final_context :: StrandContext
  world :: 'w
  step_calls :: nat

text \<open>Lines 152 to 161 of \<^verbatim>\<open>execute\<close>: the context it runs on, before the loop.\<close>

definition execute_prologue :: "Settings \<Rightarrow> Env \<Rightarrow> string \<Rightarrow> StrandContext option \<Rightarrow> StrandContext" where
  "execute_prologue s env initial_input context_arg =
     (let c0 = (case context_arg of None \<Rightarrow> new_context s env | Some c \<Rightarrow> c);
          c1 = (if messages c0 = [] then add_message c0 ''user'' initial_input None (now_message env)
                else c0)
      in c1\<lparr>state := RUNNING, start_time := Some (now_start env)\<rparr>)"

text \<open>\<^verbatim>\<open>timeout or self.settings.agent_timeout\<close>: \<^verbatim>\<open>None\<close> and \<^verbatim>\<open>0\<close> are both falsy.\<close>

definition timeout_seconds :: "Settings \<Rightarrow> int option \<Rightarrow> int" where
  "timeout_seconds s timeout =
     (case timeout of None \<Rightarrow> agent_timeout s
      | Some t \<Rightarrow> if t = 0 then agent_timeout s else t)"

text \<open>Lines 177 to 219: what \<^verbatim>\<open>execute\<close> does with the loop's outcome.\<close>

definition execute_epilogue ::
  "Env \<Rightarrow> int \<Rightarrow> (exn + unit) \<times> StrandContext \<times> 'w \<times> nat \<Rightarrow> 'w Run" where
  "execute_epilogue env ts out =
     (case out of (r, c, w, n) \<Rightarrow>
        (case r of
           Inr u \<Rightarrow>
             (let c' = c\<lparr>state := COMPLETED, end_time := Some (now_end env)\<rparr>
              in \<lparr>result = Inr c', final_context = c', world = w, step_calls = n\<rparr>)
         | Inl (TimeoutError m) \<Rightarrow>
             \<lparr>result = Inl (AgentTimeoutError
                  (''Strand execution timed out after '' @ str_int ts @ '' seconds'')
                  [(''strand_id'', JStr (strand_id c)), (''timeout'', JInt ts)]),
              final_context = c\<lparr>state := TIMEOUT, end_time := Some (now_end env),
                  error := Some (''Execution timed out after '' @ str_int ts @ '' seconds'')\<rparr>,
              world = w, step_calls = n\<rparr>
         | Inl e \<Rightarrow>
             \<lparr>result = Inl (AgentExecutionError
                  (''Strand execution failed: '' @ exn_str e)
                  [(''strand_id'', JStr (strand_id c)), (''error'', JStr (exn_str e))]),
              final_context = c\<lparr>state := FAILED, end_time := Some (now_end env),
                  error := Some (exn_str e)\<rparr>,
              world = w, step_calls = n\<rparr>))"

text \<open>
  \<^verbatim>\<open>execute\<close>. \<^verbatim>\<open>asyncio.wait_for\<close> with a deadline that is not positive cancels the
  loop before its first line runs and raises \<open>TimeoutError\<close>.
\<close>

definition execute ::
  "Settings \<Rightarrow> Env \<Rightarrow> 'w StepPolicy \<Rightarrow> 'w \<Rightarrow> string \<Rightarrow> StrandContext option \<Rightarrow> int option
     \<Rightarrow> 'w Run option" where
  "execute s env p w initial_input context_arg timeout =
     (let c = execute_prologue s env initial_input context_arg;
          ts = timeout_seconds s timeout
      in if ts \<le> 0 then Some (execute_epilogue env ts (Inl (TimeoutError []), c, w, 0))
         else map_option (execute_epilogue env ts) (execute_loop p w c 0))"

definition pause :: "StrandContext \<Rightarrow> StrandContext" where
  "pause c = c\<lparr>state := PAUSED\<rparr>"

definition resume ::
  "Settings \<Rightarrow> Env \<Rightarrow> 'w StepPolicy \<Rightarrow> 'w \<Rightarrow> StrandContext \<Rightarrow> 'w Run option" where
  "resume s env p w c =
     (if state c \<noteq> PAUSED
      then Some \<lparr>result = Inl (AgentExecutionError ''Cannot resume strand that is not paused''
                    [(''strand_id'', JStr (strand_id c)),
                     (''state'', JStr (state_value (state c)))]),
                 final_context = c, world = w, step_calls = 0\<rparr>
      else execute s env p w [] (Some c) None)"

section \<open>The learning agent's continuation test (learning\_agent.py)\<close>

text \<open>
  Python's truth value of a stored variable, \<^verbatim>\<open>str.lower()\<close> and the substring test
  \<^verbatim>\<open>phrase in text\<close>. Text is a list of characters with code points below 256, where
  \<^verbatim>\<open>str.lower()\<close> adds 32 to the capitals 65 to 90, 192 to 214 and 216 to 222 and leaves
  every other character alone.
\<close>

fun truthy :: "jv \<Rightarrow> bool" where
  "truthy JNone = False"
| "truthy (JBool b) = b"
| "truthy (JInt i) = (i \<noteq> 0)"
| "truthy (JStr s) = (s \<noteq> [])"
| "truthy (JList xs) = (xs \<noteq> [])"
| "truthy (JDict d) = (d \<noteq> [])"

definition lower_char :: "char \<Rightarrow> char" where
  "lower_char c =
     (if (65 \<le> (of_char c :: nat) \<and> (of_char c :: nat) \<le> 90) \<or>
         (192 \<le> (of_char c :: nat) \<and> (of_char c :: nat) \<le> 214) \<or>
         (216 \<le> (of_char c :: nat) \<and> (of_char c :: nat) \<le> 222)
      then char_of ((of_char c :: nat) + 32) else c)"

definition lower :: "string \<Rightarrow> string" where
  "lower s = map lower_char s"

definition startswith :: "string \<Rightarrow> string \<Rightarrow> bool" where
  "startswith s p = (take (length p) s = p)"

fun contains :: "string \<Rightarrow> string \<Rightarrow> bool" where
  "contains [] p = (p = [])"
| "contains (x # xs) p = (startswith (x # xs) p \<or> contains xs p)"

definition completion_phrases :: "string list" where
  "completion_phrases =
     [''learning session complete'',
      ''you'' @ [CHR 0x27] @ ''ve mastered'',
      ''congratulations on completing'',
      ''assessment complete'']"

text \<open>
  \<^verbatim>\<open>LearningAgent.should_continue\<close>: the boolean it returns and the context as it leaves
  it.
\<close>

definition LearningAgent_should_continue :: "StrandContext \<Rightarrow> bool \<times> StrandContext" where
  "LearningAgent_should_continue c =
     (case map_of (variables c) ''learning_complete'' of
        Some v \<Rightarrow> (\<not> truthy v, c)
      | None \<Rightarrow>
          (let assistant_messages = filter (\<lambda>m. role m = ''assistant'') (messages c)
           in if assistant_messages \<noteq> [] \<and>
                 list_ex (contains (lower (content (last assistant_messages)))) completion_phrases
              then (False, c\<lparr>variables := AList.update ''learning_complete'' (JBool True) (variables c)\<rparr>)
              else (iteration c < max_iterations c, c)))"

section \<open>The Bedrock service (bedrock\_service.py)\<close>

text \<open>
  The remote endpoint is a function from the number of calls made before to what the next
  call does: it raises, or it returns. \<open>Net\<close> is the trace of one service call: how often
  the endpoint was called and the delays slept between attempts.
\<close>

record Net =
  endpoint_calls :: nat
  sleeps :: "int list"

text \<open>
  The decorator \<^verbatim>\<open>@retry(retry=..., stop=stop_after_attempt(n), wait=..., reraise=True)\<close>
  of the tenacity library, which is not part of the repository: the function is called; an
  exception the predicate accepts is retried after sleeping \<open>wait attempt\<close>, unless this
  was attempt \<open>n\<close>, whose exception is raised as it is; any other exception is raised at
  once. \<open>wait_exponential\<close> is tenacity's \<^verbatim>\<open>max(max(0, min), min(multiplier * 2 ** (attempt - 1), max))\<close>.
\<close>

fun retry_loop ::
  "(exn \<Rightarrow> bool) \<Rightarrow> (nat \<Rightarrow> int) \<Rightarrow> (Net \<Rightarrow> (exn + 'a) \<times> Net) \<Rightarrow> nat \<Rightarrow> nat \<Rightarrow> Net \<Rightarrow> (exn + 'a) \<times> Net"
where
  "retry_loop retryable wait f attempt 0 net = f net"
| "retry_loop retryable wait f attempt (Suc left) net =
     (case f net of
        (Inr v, net') \<Rightarrow> (Inr v, net')
      | (Inl e, net') \<Rightarrow>
          if retryable e
          then retry_loop retryable wait f (Suc attempt) left (net'\<lparr>sleeps := sleeps net' @ [wait attempt]\<rparr>)
          else (Inl e, net'))"

definition retry ::
  "(exn \<Rightarrow> bool) \<Rightarrow> nat \<Rightarrow> (nat \<Rightarrow> int) \<Rightarrow> (Net \<Rightarrow> (exn + 'a) \<times> Net) \<Rightarrow> Net \<Rightarrow> (exn + 'a) \<times> Net" where
  "retry retryable stop_after_attempt wait f net =
     retry_loop retryable wait f 1 (stop_after_attempt - 1) net"

definition wait_exponential :: "int \<Rightarrow> int \<Rightarrow> int \<Rightarrow> nat \<Rightarrow> int" where
  "wait_exponential multiplier wmin wmax attempt =
     max (max 0 wmin) (min (multiplier * 2 ^ (attempt - 1)) wmax)"

text \<open>\<^verbatim>\<open>retry_if_exception_type((ClientError, ConnectionError))\<close>.\<close>

fun retry_if_exception_type :: "exn \<Rightarrow> bool" where
  "retry_if_exception_type (ClientError code msg s) = True"
| "retry_if_exception_type (ConnectionError s) = True"
| "retry_if_exception_type e = False"

fun type_name :: "jv \<Rightarrow> string" where
  "type_name JNone = ''NoneType''"
| "type_name (JBool b) = ''bool''"
| "type_name (JInt i) = ''int''"
| "type_name (JStr s) = ''str''"
| "type_name (JList xs) = ''list''"
| "type_name (JDict d) = ''dict''"

definition no_attribute :: "jv \<Rightarrow> string \<Rightarrow> exn" where
  "no_attribute v a =
     OtherException ([CHR 0x27] @ type_name v @ [CHR 0x27] @ '' object has no attribute '' @
                     [CHR 0x27] @ a @ [CHR 0x27])"

text \<open>
  \<^verbatim>\<open>response_body.get("usage", {}).get("input_tokens", 0)\<close> of the success log line:
  both receivers must be dicts.
\<close>

definition read_usage :: "jv \<Rightarrow> exn + dict" where
  "read_usage body =
     (case body of
        JDict d \<Rightarrow>
          (case map_of d ''usage'' of
             None \<Rightarrow> Inr d
           | Some (JDict u) \<Rightarrow> Inr d
           | Some v \<Rightarrow> Inl (no_attribute v ''get''))
      | v \<Rightarrow> Inl (no_attribute v ''get''))"

definition error_code :: "string option \<Rightarrow> string" where
  "error_code code = (case code of None \<Rightarrow> ''Unknown'' | Some c \<Rightarrow> c)"

definition error_message :: "string option \<Rightarrow> string \<Rightarrow> string" where
  "error_message msg s = (case msg of None \<Rightarrow> s | Some m \<Rightarrow> m)"

definition client_error_details :: "string option \<Rightarrow> string option \<Rightarrow> string \<Rightarrow> dict" where
  "client_error_details code msg s =
     [(''error_code'', JStr (error_code code)), (''error_message'', JStr (error_message msg s))]"

text \<open>
  The body of \<^verbatim>\<open>BedrockService.invoke_model\<close> (lines 100 to 154), one attempt. The
  endpoint's outcome is that of \<^verbatim>\<open>self._client.invoke_model(...)\<close> followed by
  \<^verbatim>\<open>json.loads(response["body"].read())\<close>: the parsed body, or what either raised.
\<close>

definition invoke_model_body :: "(nat \<Rightarrow> exn + jv) \<Rightarrow> Net \<Rightarrow> (exn + dict) \<times> Net" where
  "invoke_model_body endpoint net =
     (let net' = net\<lparr>endpoint_calls := Suc (endpoint_calls net)\<rparr>;
          unexpected = (\<lambda>e. BedrockError (''Unexpected error: '' @ exn_str e) [(''error'', JStr (exn_str e))])
      in case endpoint (endpoint_calls net) of
           Inr body \<Rightarrow>
             (case read_usage body of
                Inr d \<Rightarrow> (Inr d, net')
              | Inl e \<Rightarrow> (Inl (unexpected e), net'))
         | Inl (ClientError code msg s) \<Rightarrow>
             (Inl (BedrockError (''Bedrock model invocation failed: '' @ error_message msg s)
                     (client_error_details code msg s)), net')
         | Inl e \<Rightarrow> (Inl (unexpected e), net'))"

text \<open>\<^verbatim>\<open>BedrockService.invoke_model\<close> as decorated (lines 71 to 76).\<close>

definition invoke_model :: "(nat \<Rightarrow> exn + jv) \<Rightarrow> Net \<Rightarrow> (exn + dict) \<times> Net" where
  "invoke_model endpoint net =
     retry retry_if_exception_type 3 (wait_exponential 1 2 10) (invoke_model_body endpoint) net"

text \<open>\<^verbatim>\<open>not x\<close> for an optional string of the settings: \<^verbatim>\<open>None\<close> and \<^verbatim>\<open>""\<close> are falsy.\<close>

definition not_configured :: "string option \<Rightarrow> bool" where
  "not_configured x = (x = None \<or> x = Some [])"

definition opt_str :: "string option \<Rightarrow> jv" where
  "opt_str x = (case x of None \<Rightarrow> JNone | Some s \<Rightarrow> JStr s)"

text \<open>
  One event of an agent's completion stream: its \<^verbatim>\<open>chunk\<close>, when it has one, with the
  chunk's \<^verbatim>\<open>bytes\<close>, when it has them (decoded text), and its \<^verbatim>\<open>trace\<close>.
\<close>

record AgentEvent =
  chunk :: "string option option"
  trace :: "jv option"

definition completion_text :: "AgentEvent list \<Rightarrow> string" where
  "completion_text events =
     concat (map (\<lambda>e. case chunk e of Some (Some b) \<Rightarrow> b | _ \<Rightarrow> []) events)"

definition collected_traces :: "bool \<Rightarrow> AgentEvent list \<Rightarrow> jv list" where
  "collected_traces enable_trace events =
     (if enable_trace then concat (map (\<lambda>e. case trace e of Some t \<Rightarrow> [t] | None \<Rightarrow> []) events) else [])"

text \<open>The body of \<^verbatim>\<open>BedrockService.invoke_agent\<close> (lines 244 to 301), one attempt.\<close>

definition invoke_agent_body ::
  "Settings \<Rightarrow> (nat \<Rightarrow> exn + AgentEvent list) \<Rightarrow> string \<Rightarrow> bool \<Rightarrow> Net \<Rightarrow> (exn + dict) \<times> Net" where
  "invoke_agent_body s endpoint session enable_trace net =
     (if not_configured (bedrock_agent_id s) \<or> not_configured (bedrock_agent_alias_id s)
      then (Inl (BedrockError ''Bedrock Agent ID and Alias ID must be configured''
                   [(''agent_id'', opt_str (bedrock_agent_id s))]), net)
      else
        (let net' = net\<lparr>endpoint_calls := Suc (endpoint_calls net)\<rparr>
         in case endpoint (endpoint_calls net) of
              Inr events \<Rightarrow>
                (Inr [(''completion'', JStr (completion_text events)),
                      (''traces'', JList (collected_traces enable_trace events)),
                      (''session_id'', JStr session)], net')
            | Inl (ClientError code msg t) \<Rightarrow>
                (Inl (BedrockError (''Agent invocation failed: '' @ error_message msg t)
                        (client_error_details code msg t)), net')
            | Inl e \<Rightarrow> (Inl e, net')))"

text \<open>\<^verbatim>\<open>BedrockService.invoke_agent\<close> as decorated (lines 217 to 222).\<close>

definition invoke_agent ::
  "Settings \<Rightarrow> (nat \<Rightarrow> exn + AgentEvent list) \<Rightarrow> string \<Rightarrow> bool \<Rightarrow> Net \<Rightarrow> (exn + dict) \<times> Net" where
  "invoke_agent s endpoint session enable_trace net =
     retry retry_if_exception_type 3 (wait_exponential 1 2 10)
       (invoke_agent_body s endpoint session enable_trace) net"

text \<open>
  \<^verbatim>\<open>BedrockService.retrieve_from_knowledge_base\<close> (lines 359 to 403), which has no
  decorator. The endpoint returns the response's \<^verbatim>\<open>retrievalResults\<close>, when it has them.
\<close>

definition retrieve_from_knowledge_base ::
  "Settings \<Rightarrow> (nat \<Rightarrow> exn + jv list option) \<Rightarrow> Net \<Rightarrow> (exn + jv list) \<times> Net" where
  "retrieve_from_knowledge_base s endpoint net =
     (if not_configured (bedrock_knowledge_base_id s)
      then (Inl (BedrockError ''Knowledge Base ID must be configured''
                   [(''knowledge_base_id'', JNone)]), net)
      else
        (let net' = net\<lparr>endpoint_calls := Suc (endpoint_calls net)\<rparr>
         in case endpoint (endpoint_calls net) of
              Inr results \<Rightarrow> (Inr (case results of None \<Rightarrow> [] | Some rs \<Rightarrow> rs), net')
            | Inl (ClientError code msg t) \<Rightarrow>
                (Inl (BedrockError (''Knowledge base retrieval failed: '' @ error_message msg t)
                        (client_error_details code msg t)), net')
            | Inl e \<Rightarrow> (Inl e, net')))"

section \<open>The agent's model call (StrandAgent.invoke\_model)\<close>

text \<open>
  \<^verbatim>\<open>str.strip()\<close> removes the characters for which \<^verbatim>\<open>str.isspace()\<close> holds. Among the
  code points below 256 these are 9 to 13, 28 to 32, 133 (U+0085) and 160 (U+00A0).
\<close>

definition is_space :: "char \<Rightarrow> bool" where
  "is_space c = ((9 \<le> (of_char c :: nat) \<and> (of_char c :: nat) \<le> 13) \<or>
                 (28 \<le> (of_char c :: nat) \<and> (of_char c :: nat) \<le> 32) \<or>
                 (of_char c :: nat) = 133 \<or> (of_char c :: nat) = 160)"

definition strip :: "string \<Rightarrow> string" where
  "strip s = rev (dropWhile is_space (rev (dropWhile is_space s)))"

text \<open>What \<^verbatim>\<open>for block in content_blocks\<close> walks over.\<close>

fun iter_items :: "jv \<Rightarrow> exn + jv list" where
  "iter_items (JList bs) = Inr bs"
| "iter_items (JDict d) = Inr (map (\<lambda>kv. JStr (fst kv)) d)"
| "iter_items (JStr s) = Inr (map (\<lambda>c. JStr [c]) s)"
| "iter_items v = Inl (OtherException ([CHR 0x27] @ type_name v @ [CHR 0x27] @ '' object is not iterable''))"

text \<open>
  The generator \<^verbatim>\<open>block.get("text", "") for block in content_blocks if block.get("type") == "text"\<close>,
  run to its end: a block that is no dict has no \<^verbatim>\<open>get\<close>.
\<close>

fun text_items :: "jv list \<Rightarrow> exn + jv list" where
  "text_items [] = Inr []"
| "text_items (JDict d # bs) =
     (case text_items bs of
        Inl e \<Rightarrow> Inl e
      | Inr ts \<Rightarrow>
          Inr (if map_of d ''type'' = Some (JStr ''text'')
               then (case map_of d ''text'' of None \<Rightarrow> JStr [] | Some t \<Rightarrow> t) # ts
               else ts))"
| "text_items (b # bs) = Inl (no_attribute b ''get'')"

text \<open>\<^verbatim>\<open>"".join(items)\<close>: every item must be a \<^verbatim>\<open>str\<close>.\<close>

fun str_join :: "nat \<Rightarrow> jv list \<Rightarrow> exn + string" where
  "str_join i [] = Inr []"
| "str_join i (JStr s # ts) =
     (case str_join (Suc i) ts of Inl e \<Rightarrow> Inl e | Inr r \<Rightarrow> Inr (s @ r))"
| "str_join i (t # ts) =
     Inl (OtherException (''sequence item '' @ str_nat i @ '': expected str instance, '' @
                          type_name t @ '' found''))"

definition model_invocation_failed :: "exn \<Rightarrow> exn" where
  "model_invocation_failed e =
     AgentExecutionError (''Model invocation failed: '' @ exn_str e) [(''error'', JStr (exn_str e))]"

text \<open>
  \<^verbatim>\<open>StrandAgent.invoke_model\<close> (lines 271 to 291), given what the call of
  \<^verbatim>\<open>self.bedrock_service.invoke_model\<close> returned or raised.
\<close>

definition agent_invoke_model :: "exn + dict \<Rightarrow> exn + string" where
  "agent_invoke_model service_outcome =
     (case service_outcome of
        Inl e \<Rightarrow> Inl (model_invocation_failed e)
      | Inr response \<Rightarrow>
          (case map_of response ''content'' of
             None \<Rightarrow> Inr []
           | Some content_blocks \<Rightarrow>
               (case iter_items content_blocks of
                  Inl e \<Rightarrow> Inl (model_invocation_failed e)
                | Inr blocks \<Rightarrow>
                    (case text_items blocks of
                       Inl e \<Rightarrow> Inl (model_invocation_failed e)
                     | Inr items \<Rightarrow>
                         (case str_join 0 items of
                            Inl e \<Rightarrow> Inl (model_invocation_failed e)
                          | Inr text \<Rightarrow> Inr (strip text))))))"

section \<open>The transport shape of a context (to\_dict)\<close>

text \<open>
  \<^verbatim>\<open>"%0wd" % n\<close> for a natural number and \<^verbatim>\<open>datetime.isoformat()\<close> of a naive datetime:
  the microseconds are written only when they are not zero.
\<close>

definition pad :: "nat \<Rightarrow> nat \<Rightarrow> string" where
  "pad w n = replicate (w - length (str_nat n)) (CHR ''0'') @ str_nat n"

definition isoformat :: "datetime \<Rightarrow> string" where
  "isoformat t =
     pad 4 (year t) @ ''-'' @ pad 2 (month t) @ ''-'' @ pad 2 (day t) @ ''T'' @
     pad 2 (hour t) @ '':'' @ pad 2 (minute t) @ '':'' @ pad 2 (second t) @
     (if microsecond t = 0 then [] else ''.'' @ pad 6 (microsecond t))"

text \<open>\<^verbatim>\<open>StrandMessage.to_dict\<close> and \<^verbatim>\<open>StrandContext.to_dict\<close>.\<close>

definition message_to_dict :: "StrandMessage \<Rightarrow> dict" where
  "message_to_dict m =
     [(''role'', JStr (role m)),
      (''content'', JStr (content m)),
      (''timestamp'', JStr (isoformat (timestamp m))),
      (''metadata'', JDict (metadata m))]"

definition opt_time :: "datetime option \<Rightarrow> jv" where
  "opt_time t = (case t of None \<Rightarrow> JNone | Some d \<Rightarrow> JStr (isoformat d))"

definition context_to_dict :: "StrandContext \<Rightarrow> dict" where
  "context_to_dict c =
     [(''strand_id'', JStr (strand_id c)),
      (''session_id'', JStr (session_id c)),
      (''state'', JStr (state_value (state c))),
      (''messages'', JList (map (\<lambda>m. JDict (message_to_dict m)) (messages c))),
      (''variables'', JDict (variables c)),
      (''iteration'', JInt (iteration c)),
      (''max_iterations'', JInt (max_iterations c)),
      (''start_time'', opt_time (start_time c)),
      (''end_time'', opt_time (end_time c)),
      (''error'', opt_str (error c))]"

text \<open>
  The ranges the \<^verbatim>\<open>datetime\<close> constructor enforces on its fields (it also bounds the day
  by the month's length, which the text form does not need).
\<close>

definition valid_datetime :: "datetime \<Rightarrow> bool" where
  "valid_datetime t =
     (1 \<le> year t \<and> year t \<le> 9999 \<and> 1 \<le> month t \<and> month t \<le> 12 \<and>
      1 \<le> day t \<and> day t \<le> 31 \<and> hour t < 24 \<and> minute t < 60 \<and> second t < 60 \<and>
      microsecond t < 1000000)"

definition valid_opt_time :: "datetime option \<Rightarrow> bool" where
  "valid_opt_time t = (case t of None \<Rightarrow> True | Some d \<Rightarrow> valid_datetime d)"

definition valid_context :: "StrandContext \<Rightarrow> bool" where
  "valid_context c =
     (list_all (\<lambda>m. valid_datetime (timestamp m)) (messages c) \<and>
      valid_opt_time (start_time c) \<and> valid_opt_time (end_time c))"

text \<open>
  Modelled from the spec: the repository has no function that reads a context back from
  its transport shape (no \<^verbatim>\<open>from_dict\<close>, no call of \<^verbatim>\<open>fromisoformat\<close>). What follows
  reads the record the spec describes: strand id, session id, state name, the ordered
  message list (role, text, ISO-8601 timestamp, metadata map), the variables map,
  iteration, max\_iterations, nullable start and end timestamps, nullable error text.
\<close>

definition is_digit :: "char \<Rightarrow> bool" where
  "is_digit c = (48 \<le> (of_char c :: nat) \<and> (of_char c :: nat) \<le> 57)"

definition digits_value :: "string \<Rightarrow> nat" where
  "digits_value s = foldl (\<lambda>a c. 10 * a + ((of_char c :: nat) - 48)) 0 s"

definition read_digits :: "nat \<Rightarrow> string \<Rightarrow> (nat \<times> string) option" where
  "read_digits w s =
     (if w \<le> length s \<and> list_all is_digit (take w s)
      then Some (digits_value (take w s), drop w s) else None)"

fun expect :: "char \<Rightarrow> string \<Rightarrow> string option" where
  "expect c [] = None"
| "expect c (x # xs) = (if x = c then Some xs else None)"

definition read_fraction :: "string \<Rightarrow> nat option" where
  "read_fraction s =
     (if s = [] then Some 0
      else (case expect (CHR ''.'') s of
              None \<Rightarrow> None
            | Some s1 \<Rightarrow>
                (case read_digits 6 s1 of
                   None \<Rightarrow> None
                 | Some (us, rest) \<Rightarrow> if rest = [] then Some us else None)))"

definition read_field :: "nat \<Rightarrow> char \<Rightarrow> string \<Rightarrow> (nat \<times> string) option" where
  "read_field w sep s =
     (case read_digits w s of
        None \<Rightarrow> None
      | Some (n, s1) \<Rightarrow> map_option (Pair n) (expect sep s1))"

definition fromisoformat :: "string \<Rightarrow> datetime option" where
  "fromisoformat s =
     Option.bind (read_field 4 (CHR ''-'') s) (\<lambda>(y, s1).
     Option.bind (read_field 2 (CHR ''-'') s1) (\<lambda>(mo, s2).
     Option.bind (read_field 2 (CHR ''T'') s2) (\<lambda>(d, s3).
     Option.bind (read_field 2 (CHR '':'') s3) (\<lambda>(h, s4).
     Option.bind (read_field 2 (CHR '':'') s4) (\<lambda>(mi, s5).
     Option.bind (read_digits 2 s5) (\<lambda>(sec, s6).
     map_option
       (\<lambda>us. \<lparr>year = y, month = mo, day = d, hour = h, minute = mi, second = sec,
              microsecond = us\<rparr>)
       (read_fraction s6)))))))"

definition state_of_value :: "string \<Rightarrow> StrandState option" where
  "state_of_value v =
     (if v = ''idle'' then Some IDLE
      else if v = ''running'' then Some RUNNING
      else if v = ''paused'' then Some PAUSED
      else if v = ''completed'' then Some COMPLETED
      else if v = ''failed'' then Some FAILED
      else if v = ''timeout'' then Some TIMEOUT
      else None)"

definition time_of_opt :: "jv option \<Rightarrow> datetime option option" where
  "time_of_opt v =
     (case v of
        Some JNone \<Rightarrow> Some None
      | Some (JStr s) \<Rightarrow> map_option Some (fromisoformat s)
      | _ \<Rightarrow> None)"

definition str_of_opt :: "jv option \<Rightarrow> string option option" where
  "str_of_opt v =
     (case v of Some JNone \<Rightarrow> Some None | Some (JStr s) \<Rightarrow> Some (Some s) | _ \<Rightarrow> None)"

definition message_from_dict :: "jv \<Rightarrow> StrandMessage option" where
  "message_from_dict v =
     (case v of
        JDict d \<Rightarrow>
          (case (map_of d ''role'', map_of d ''content'', map_of d ''timestamp'', map_of d ''metadata'') of
             (Some (JStr r), Some (JStr txt), Some (JStr ts), Some (JDict md)) \<Rightarrow>
               map_option (\<lambda>t. \<lparr>role = r, content = txt, timestamp = t, metadata = md\<rparr>)
                 (fromisoformat ts)
           | _ \<Rightarrow> None)
      | _ \<Rightarrow> None)"

definition context_from_dict :: "dict \<Rightarrow> StrandContext option" where
  "context_from_dict d =
     (case (map_of d ''strand_id'', map_of d ''session_id'', map_of d ''state'',
            map_of d ''messages'', map_of d ''variables'') of
        (Some (JStr sid), Some (JStr ssid), Some (JStr st), Some (JList ms), Some (JDict vs)) \<Rightarrow>
          (case (map_of d ''iteration'', map_of d ''max_iterations'',
                 state_of_value st, those (map message_from_dict ms),
                 time_of_opt (map_of d ''start_time''), time_of_opt (map_of d ''end_time''),
                 str_of_opt (map_of d ''error'')) of
             (Some (JInt i), Some (JInt mx), Some s, Some msgs, Some t0, Some t1, Some err) \<Rightarrow>
               Some \<lparr>strand_id = sid, session_id = ssid, state = s, messages = msgs,
                     variables = vs, iteration = i, max_iterations = mx,
                     start_time = t0, end_time = t1, error = err\<rparr>
           | _ \<Rightarrow> None)
      | _ \<Rightarrow> None)"

section \<open>Properties of states and policies used in the statements\<close>

text \<open>
  The terminal states of the lifecycle.
\<close>

definition is_terminal :: "StrandState \<Rightarrow> bool" where
  "is_terminal st = (st = COMPLETED \<or> st = FAILED \<or> st = TIMEOUT)"

text \<open>
  Three properties of a step policy: \<^verbatim>\<open>should_continue\<close> always answers true; a
  method leaves the context's \<^verbatim>\<open>iteration\<close> and \<^verbatim>\<open>max_iterations\<close> as they were;
  \<^verbatim>\<open>process_step\<close> never raises (in particular the deadline never fires in it).
\<close>

definition always_continues :: "'w StepPolicy \<Rightarrow> bool" where
  "always_continues p = (\<forall>w c. fst (should_continue p w c) = Inr True)"

definition keeps_budget :: "('w \<Rightarrow> StrandContext \<Rightarrow> 'r \<times> StrandContext \<times> 'w) \<Rightarrow> bool" where
  "keeps_budget f =
     (\<forall>w c. iteration (fst (snd (f w c))) = iteration c \<and>
            max_iterations (fst (snd (f w c))) = max_iterations c)"

definition steps_succeed :: "'w StepPolicy \<Rightarrow> bool" where
  "steps_succeed p = (\<forall>w c. fst (process_step p w c) = Inr ())"


definition last_assistant :: "StrandContext \<Rightarrow> StrandMessage option" where
  "last_assistant c =
     (case filter (\<lambda>m. role m = ''assistant'') (messages c) of
        [] \<Rightarrow> None
      | m # ms \<Rightarrow> Some (last (m # ms)))"

definition announces_completion :: "StrandContext \<Rightarrow> bool" where
  "announces_completion c =
     (case last_assistant c of
        None \<Rightarrow> False
      | Some m \<Rightarrow> list_ex (contains (lower (content m))) completion_phrases)"

text \<open>
  How the spec reads a response's content blocks: a block counts when its \<^verbatim>\<open>type\<close> is
  \<^verbatim>\<open>"text"\<close>, and it contributes its \<^verbatim>\<open>text\<close>; \<open>text_is_str\<close> says that a block's
  \<^verbatim>\<open>text\<close>, when it has one, is a string.
\<close>

definition is_text_block :: "dict \<Rightarrow> bool" where
  "is_text_block b = (map_of b ''type'' = Some (JStr ''text''))"

definition block_text :: "dict \<Rightarrow> string" where
  "block_text b = (case map_of b ''text'' of Some (JStr s) \<Rightarrow> s | _ \<Rightarrow> [])"

definition text_is_str :: "dict \<Rightarrow> bool" where
  "text_is_str b = (case map_of b ''text'' of None \<Rightarrow> True | Some (JStr s) \<Rightarrow> True | Some v \<Rightarrow> False)"

section \<open>Concrete inputs\<close>

text \<open>
  Three clock readings, an environment, settings, a context with one user message, a
  policy that always continues and answers each step, and one whose step raises.
\<close>

definition t0 :: datetime where
  "t0 = \<lparr>year = 2024, month = 1, day = 15, hour = 9, minute = 30, second = 0, microsecond = 0\<rparr>"

definition t1 :: datetime where
  "t1 = \<lparr>year = 2024, month = 1, day = 15, hour = 9, minute = 45, second = 10, microsecond = 250000\<rparr>"

definition t2 :: datetime where
  "t2 = \<lparr>year = 2024, month = 1, day = 15, hour = 9, minute = 45, second = 12, microsecond = 0\<rparr>"

definition example_env :: Env where
  "example_env = \<lparr>uuid_strand = ''strand-2'', uuid_session = ''session-2'',
                   now_message = t1, now_start = t1, now_end = t2\<rparr>"

definition example_settings :: Settings where
  "example_settings = \<lparr>settings_max_iterations = 10, agent_timeout = 300,
     bedrock_agent_id = None, bedrock_agent_alias_id = Some ''alias'', bedrock_knowledge_base_id = Some []\<rparr>"

definition example_context :: "StrandState \<Rightarrow> int \<Rightarrow> dict \<Rightarrow> StrandContext" where
  "example_context st i vars =
     \<lparr>strand_id = ''strand-1'', session_id = ''session-1'', state = st,
      messages = [\<lparr>role = ''user'', content = ''What is recursion?'', timestamp = t0, metadata = []\<rparr>],
      variables = vars, iteration = i, max_iterations = 3,
      start_time = Some t0, end_time = None, error = None\<rparr>"

definition eager_policy :: "unit StepPolicy" where
  "eager_policy =
     \<lparr>should_continue = (\<lambda>w c. (Inr True, c, w)),
      process_step = (\<lambda>w c. (Inr (), add_message c ''assistant'' ''ok'' None t1, w))\<rparr>"

definition failing_policy :: "unit StepPolicy" where
  "failing_policy =
     \<lparr>should_continue = (\<lambda>w c. (Inr True, c, w)),
      process_step = (\<lambda>w c. (Inl (OtherException ''boom''), c, w))\<rparr>"


text \<open>
  Endpoints: one that is throttled twice and then answers, one that loses the connection
  twice and then answers, one that refuses the caller. Settings with every id configured,
  the empty trace of a service call, a context whose last assistant message announces
  completion, and a response body with three text blocks and an image block, whose text
  is surrounded by spaces, a no-break space (U+00A0), a next-line character (U+0085) and
  a line feed, and has a no-break space inside.
\<close>

definition throttled_twice :: "nat \<Rightarrow> exn + jv" where
  "throttled_twice k =
     (if k < 2
      then Inl (ClientError (Some ''ThrottlingException'') (Some ''Rate exceeded'')
                  ''An error occurred (ThrottlingException) when calling the InvokeModel operation: Rate exceeded'')
      else Inr (JDict [(''content'', JList [JDict [(''type'', JStr ''text''), (''text'', JStr ''Hello'')]])]))"

definition connection_lost_twice :: "nat \<Rightarrow> exn + AgentEvent list" where
  "connection_lost_twice k =
     (if k < 2 then Inl (ConnectionError ''Connection reset by peer'')
      else Inr [\<lparr>chunk = Some (Some ''Hello''), trace = None\<rparr>])"

definition access_denied :: "nat \<Rightarrow> exn + jv" where
  "access_denied k =
     Inl (ClientError (Some ''AccessDeniedException'') (Some ''Not authorized'') ''An error occurred'')"

definition configured_settings :: Settings where
  "configured_settings = \<lparr>settings_max_iterations = 10, agent_timeout = 300,
     bedrock_agent_id = Some ''agent'', bedrock_agent_alias_id = Some ''alias'',
     bedrock_knowledge_base_id = Some ''kb''\<rparr>"

definition net0 :: Net where
  "net0 = \<lparr>endpoint_calls = 0, sleeps = []\<rparr>"

definition finished_context :: StrandContext where
  "finished_context =
     \<lparr>strand_id = ''strand-1'', session_id = ''session-1'', state = RUNNING,
      messages = [\<lparr>role = ''user'', content = ''Quiz me'', timestamp = t0, metadata = []\<rparr>,
                  \<lparr>role = ''assistant'', content = ''Assessment Complete'',
                   timestamp = t1, metadata = []\<rparr>],
      variables = [], iteration = 1, max_iterations = 3,
      start_time = Some t0, end_time = None, error = None\<rparr>"

definition spaced_blocks :: "dict list" where
  "spaced_blocks =
     [[(''type'', JStr ''text''), (''text'', JStr ([CHR 0xA0] @ '' Hello ''))],
      [(''type'', JStr ''image''), (''source'', JStr ''data'')],
      [(''type'', JStr ''text''), (''text'', JStr (''wide'' @ [CHR 0xA0] @ ''world'' @ [CHR 0x85, CHR 0x0A]))],
      [(''type'', JStr ''text'')]]"

definition spaced_response :: dict where
  "spaced_response =
     [(''content'', JList (map JDict spaced_blocks)),
      (''usage'', JDict [(''input_tokens'', JInt 10), (''output_tokens'', JInt 20)])]"

text \<open>
  A context as it stands after a failed run: two messages, variables, both timestamps and
  an error text.
\<close>

definition transported_context :: StrandContext where
  "transported_context =
     \<lparr>strand_id = ''strand-1'', session_id = ''session-1'', state = FAILED,
      messages = [\<lparr>role = ''user'', content = ''What is recursion?'', timestamp = t0,
                   metadata = []\<rparr>,
                  \<lparr>role = ''assistant'', content = ''A function that calls itself.'',
                   timestamp = t1,
                   metadata = [(''learning_goal'', JStr ''concept_explanation''), (''iteration'', JInt 0)]\<rparr>],
      variables = [(''learning_goal'', JStr ''concept_explanation''),
                   (''progress'', JDict [(''questions_asked'', JInt 0)])],
      iteration = 1, max_iterations = 3,
      start_time = Some t0, end_time = Some t2, error = Some ''boom''\<rparr>"

section \<open>The iteration budget\<close>

lemmas example_defs =
  example_settings_def example_env_def example_context_def eager_policy_def failing_policy_def
  execute_def execute_prologue_def timeout_seconds_def execute_epilogue_def add_message_def
  budget_exceeded_def new_context_def

lemma loop_budget:
  assumes "always_continues p" "keeps_budget (should_continue p)"
    "keeps_budget (process_step p)" "steps_succeed p"
  shows "nat (max_iterations c - iteration c) = k \<Longrightarrow>
         \<exists>c' w'. execute_loop p w c n = Some (Inl (budget_exceeded c'), c', w', n + k) \<and>
                 max_iterations c' = max_iterations c"
proof (induction k arbitrary: w c n)
  case 0
  obtain x c1 w1 where sc: "should_continue p w c = (x, c1, w1)"
    by (cases "should_continue p w c") auto
  from assms(1) sc have x: "x = Inr True"
    by (metis always_continues_def fst_conv)
  from assms(2) sc have k: "iteration c1 = iteration c" "max_iterations c1 = max_iterations c"
    by (metis keeps_budget_def fst_conv snd_conv)+
  from 0 k have "max_iterations c1 \<le> iteration c1" by simp
  then show ?case
    using sc x k by (subst execute_loop.simps) simp
next
  case (Suc k)
  obtain x c1 w1 where sc: "should_continue p w c = (x, c1, w1)"
    by (cases "should_continue p w c") auto
  from assms(1) sc have x: "x = Inr True"
    by (metis always_continues_def fst_conv)
  from assms(2) sc have k: "iteration c1 = iteration c" "max_iterations c1 = max_iterations c"
    by (metis keeps_budget_def fst_conv snd_conv)+
  obtain y c2 w2 where ps: "process_step p w1 c1 = (y, c2, w2)"
    by (cases "process_step p w1 c1") auto
  from assms(4) ps have y: "y = Inr ()"
    by (metis steps_succeed_def fst_conv)
  from assms(3) ps have k2: "iteration c2 = iteration c1" "max_iterations c2 = max_iterations c1"
    by (metis keeps_budget_def fst_conv snd_conv)+
  let ?c = "c2\<lparr>iteration := iteration c2 + 1\<rparr>"
  from Suc.prems k k2 have lt: "\<not> max_iterations c1 \<le> iteration c1" by simp
  from Suc.prems k k2 have "nat (max_iterations ?c - iteration ?c) = k" by simp
  from Suc.IH[OF this, of w2 "Suc n"] obtain c' w' where
    r: "execute_loop p w2 ?c (Suc n) = Some (Inl (budget_exceeded c'), c', w', Suc n + k)"
       "max_iterations c' = max_iterations ?c" by blast
  have "execute_loop p w c n = execute_loop p w2 ?c (Suc n)"
    using sc x ps y lt by (subst execute_loop.simps) simp
  then show ?case using r k k2 by simp
qed

lemma prologue_counters:
  "iteration (execute_prologue s env input (Some c)) = iteration c"
  "max_iterations (execute_prologue s env input (Some c)) = max_iterations c"
  by (simp_all add: execute_prologue_def add_message_def Let_def)

text \<open>
  C2, as amended. \<^verbatim>\<open>execute\<close> on a context with \<^verbatim>\<open>max_iterations = N\<close> and
  \<^verbatim>\<open>iteration = k\<close>, with a policy that always continues, whose methods leave the two
  counters alone and whose steps succeed, under a positive deadline: it returns, having
  called \<^verbatim>\<open>process_step\<close> exactly \<open>N - k\<close> times (none when \<open>k \<ge> N\<close>), and fails with
  the budget error, the context FAILED and its error text recorded. For a context that
  starts at iteration 0 these are exactly \<open>N\<close> calls: the budget is checked before each
  step.
\<close>

theorem execute_budget_bounds_steps:
  assumes "always_continues p" and "keeps_budget (should_continue p)"
    and "keeps_budget (process_step p)" and "steps_succeed p"
    and "0 < timeout_seconds s t"
  shows "\<exists>r d. execute s env p w input (Some c) t = Some r \<and>
           step_calls r = nat (max_iterations c - iteration c) \<and>
           result r = Inl (AgentExecutionError
             (''Strand execution failed: Maximum iterations ('' @ str_int (max_iterations c) @ '') exceeded'') d) \<and>
           state (final_context r) = FAILED \<and>
           error (final_context r) =
             Some (''Maximum iterations ('' @ str_int (max_iterations c) @ '') exceeded'')"
proof -
  let ?c0 = "execute_prologue s env input (Some c)"
  have "nat (max_iterations ?c0 - iteration ?c0) = nat (max_iterations c - iteration c)"
    by (simp add: prologue_counters)
  from loop_budget[OF assms(1-4) this, of w 0] obtain c' w' where
    l: "execute_loop p w ?c0 0 = Some (Inl (budget_exceeded c'), c', w', nat (max_iterations c - iteration c))"
    and m: "max_iterations c' = max_iterations c"
    by (auto simp: prologue_counters)
  show ?thesis
    using assms(5) l m
    by (simp add: execute_def Let_def execute_epilogue_def budget_exceeded_def)
qed

text \<open>
  The theorem at \<open>N = 3\<close>, \<open>k = 0\<close>: three calls, then the budget error.
\<close>

theorem execute_budget_bounds_steps_witness:
  "always_continues eager_policy \<and> keeps_budget (should_continue eager_policy) \<and>
   keeps_budget (process_step eager_policy) \<and> steps_succeed eager_policy \<and>
   0 < timeout_seconds example_settings None \<and>
   (\<exists>r d. execute example_settings example_env eager_policy () ''go''
             (Some (example_context IDLE 0 [])) None = Some r \<and>
      step_calls r = 3 \<and>
      result r = Inl (AgentExecutionError ''Strand execution failed: Maximum iterations (3) exceeded'' d) \<and>
      state (final_context r) = FAILED \<and>
      error (final_context r) = Some ''Maximum iterations (3) exceeded'')"
proof -
  have h1: "always_continues eager_policy"
    by (simp add: always_continues_def eager_policy_def)
  have h2: "keeps_budget (should_continue eager_policy)"
    by (simp add: keeps_budget_def eager_policy_def)
  have h3: "keeps_budget (process_step eager_policy)"
    by (simp add: keeps_budget_def eager_policy_def add_message_def)
  have h4: "steps_succeed eager_policy"
    by (simp add: steps_succeed_def eager_policy_def)
  have h5: "0 < timeout_seconds example_settings None"
    by (simp add: timeout_seconds_def example_settings_def)
  have m: "max_iterations (example_context IDLE 0 []) = 3" "iteration (example_context IDLE 0 []) = 0"
    by (simp_all add: example_context_def)
  have s: "str_int 3 = ''3''"
    by code_simp
  show ?thesis
    using h1 h2 h3 h4 h5
      execute_budget_bounds_steps[OF h1 h2 h3 h4 h5, of example_env "()" "''go''" "example_context IDLE 0 []"]
    by (simp add: m s)
qed

text \<open>
  C2 as stated fails: a context with \<^verbatim>\<open>max_iterations = 3\<close> that is handed to
  \<^verbatim>\<open>execute\<close> at iteration 2 gets one call of \<^verbatim>\<open>process_step\<close>, not three.
\<close>

theorem resumed_context_runs_fewer_steps:
  "always_continues eager_policy \<and>
   max_iterations (example_context RUNNING 2 []) = 3 \<and>
   map_option step_calls
     (execute example_settings example_env eager_policy () ''go''
        (Some (example_context RUNNING 2 [])) None) = Some 1"
  by (simp add: always_continues_def example_defs execute_loop.simps)

section \<open>Failure paths\<close>

lemma running_state_update: "state c = RUNNING \<Longrightarrow> c\<lparr>state := RUNNING\<rparr> = c"
  by (cases c) simp

lemma epilogue_terminal:
  "is_terminal (state (final_context (execute_epilogue env ts out)))"
proof -
  obtain r c w n where out: "out = (r, c, w, n)"
    by (cases out) auto
  show ?thesis
  proof (cases r)
    case (Inl e)
    then show ?thesis
      using out by (cases e) (simp_all add: execute_epilogue_def is_terminal_def)
  next
    case (Inr u)
    then show ?thesis
      using out by (simp add: execute_epilogue_def is_terminal_def Let_def)
  qed
qed

lemma execute_ends_terminal:
  "execute s env p w input ctx t = Some r \<Longrightarrow> is_terminal (state (final_context r))"
  by (auto simp: execute_def Let_def epilogue_terminal split: if_splits)




section \<open>Pause and resume\<close>

text \<open>
  C4. \<^verbatim>\<open>resume\<close> on a context that is not PAUSED raises an
  \<^verbatim>\<open>AgentExecutionError\<close> whose details name the state, and the context is left as it
  was; on a PAUSED context it is \<^verbatim>\<open>execute\<close> with the empty input and that context.
\<close>

theorem resume_requires_paused:
  "(state c \<noteq> PAUSED \<longrightarrow>
      resume s env p w c =
        Some \<lparr>result = Inl (AgentExecutionError ''Cannot resume strand that is not paused''
                 [(''strand_id'', JStr (strand_id c)), (''state'', JStr (state_value (state c)))]),
              final_context = c, world = w, step_calls = 0\<rparr>) \<and>
   (state c = PAUSED \<longrightarrow> resume s env p w c = execute s env p w [] (Some c) None)"
  by (simp add: resume_def)

text \<open>
  The theorem at a COMPLETED and at a PAUSED context.
\<close>

theorem resume_requires_paused_witness:
  "state (example_context COMPLETED 1 []) \<noteq> PAUSED \<and>
   resume example_settings example_env eager_policy () (example_context COMPLETED 1 []) =
     Some \<lparr>result = Inl (AgentExecutionError ''Cannot resume strand that is not paused''
              [(''strand_id'', JStr ''strand-1''), (''state'', JStr ''completed'')]),
           final_context = example_context COMPLETED 1 [], world = (), step_calls = 0\<rparr> \<and>
   state (example_context PAUSED 1 []) = PAUSED \<and>
   resume example_settings example_env eager_policy () (example_context PAUSED 1 []) =
     execute example_settings example_env eager_policy () [] (Some (example_context PAUSED 1 [])) None"
  using resume_requires_paused[of "example_context COMPLETED 1 []" example_settings example_env eager_policy "()"]
    resume_requires_paused[of "example_context PAUSED 1 []" example_settings example_env eager_policy "()"]
  by (simp add: example_context_def)

text \<open>
  C5, as amended. \<^verbatim>\<open>pause\<close> sets the state to PAUSED and nothing else. For a RUNNING
  context, \<^verbatim>\<open>resume\<close> after \<^verbatim>\<open>pause\<close> is \<^verbatim>\<open>execute\<close> with the empty input, and
  the context the loop then starts from is the original one with \<^verbatim>\<open>start_time\<close>
  stamped anew (and, when it had no message at all, with one empty user message
  appended): variables, iteration and every other field are the original ones, and the
  state is RUNNING again. A run that returns ends in a terminal state.
\<close>

theorem pause_resume_frame:
  assumes "state c = RUNNING"
  shows "pause c = c\<lparr>state := PAUSED\<rparr> \<and>
         execute_prologue s env [] (Some (pause c)) =
           (if messages c = [] then add_message c ''user'' [] None (now_message env) else c)
             \<lparr>start_time := Some (now_start env)\<rparr> \<and>
         resume s env p w (pause c) = execute s env p w [] (Some (pause c)) None \<and>
         pred_option (\<lambda>r. is_terminal (state (final_context r))) (resume s env p w (pause c))"
proof -
  have a: "pause c = c\<lparr>state := PAUSED\<rparr>"
    by (simp add: pause_def)
  have b: "execute_prologue s env [] (Some (pause c)) =
           (if messages c = [] then add_message c ''user'' [] None (now_message env) else c)
             \<lparr>start_time := Some (now_start env)\<rparr>"
    using assms by (cases c) (simp add: execute_prologue_def pause_def add_message_def)
  have c: "resume s env p w (pause c) = execute s env p w [] (Some (pause c)) None"
    by (simp add: resume_def pause_def)
  have d: "pred_option (\<lambda>r. is_terminal (state (final_context r))) (resume s env p w (pause c))"
    unfolding c by (cases "execute s env p w [] (Some (pause c)) None") (auto dest: execute_ends_terminal)
  from a b c d show ?thesis by blast
qed

text \<open>
  The theorem at a RUNNING context with one message.
\<close>

theorem pause_resume_frame_witness:
  "state (example_context RUNNING 1 []) = RUNNING \<and>
   pause (example_context RUNNING 1 []) = example_context PAUSED 1 [] \<and>
   execute_prologue example_settings example_env [] (Some (pause (example_context RUNNING 1 []))) =
     (example_context RUNNING 1 [])\<lparr>start_time := Some t1\<rparr> \<and>
   resume example_settings example_env eager_policy () (pause (example_context RUNNING 1 [])) =
     execute example_settings example_env eager_policy () []
       (Some (pause (example_context RUNNING 1 []))) None \<and>
   pred_option (\<lambda>r. is_terminal (state (final_context r)))
     (resume example_settings example_env eager_policy () (pause (example_context RUNNING 1 [])))"
proof -
  have h: "state (example_context RUNNING 1 []) = RUNNING"
    by (simp add: example_context_def)
  have m: "messages (example_context RUNNING 1 []) \<noteq> []"
    by (simp add: example_context_def)
  have e: "now_start example_env = t1"
    by (simp add: example_env_def)
  have p: "example_context PAUSED 1 [] = (example_context RUNNING 1 [])\<lparr>state := PAUSED\<rparr>"
    by (simp add: example_context_def)
  show ?thesis
    using h m e p pause_resume_frame[OF h, of example_settings example_env eager_policy "()"]
    by (auto simp: pause_def)
qed

text \<open>
  C5 as stated fails: the state is not the only field that changes between
  \<^verbatim>\<open>pause\<close> and the resumed loop, \<^verbatim>\<open>start_time\<close> is overwritten.
\<close>

theorem resume_restamps_start_time:
  "state (example_context RUNNING 1 []) = RUNNING \<and>
   start_time (execute_prologue example_settings example_env []
                 (Some (pause (example_context RUNNING 1 [])))) \<noteq>
   start_time (example_context RUNNING 1 [])"
  by (simp add: example_defs pause_def t0_def t1_def)

text \<open>
  C7, as amended. Of the three operations only \<^verbatim>\<open>resume\<close> refuses a context in a
  terminal state, leaving it as it was; \<^verbatim>\<open>pause\<close> moves it to PAUSED and
  \<^verbatim>\<open>execute\<close> moves it to RUNNING, as they do from any state.
\<close>

theorem terminal_states_guarded_by_resume_only:
  assumes "is_terminal (state c)"
  shows "resume s env p w c =
           Some \<lparr>result = Inl (AgentExecutionError ''Cannot resume strand that is not paused''
                    [(''strand_id'', JStr (strand_id c)), (''state'', JStr (state_value (state c)))]),
                 final_context = c, world = w, step_calls = 0\<rparr> \<and>
         state (pause c) = PAUSED \<and>
         state (execute_prologue s env input (Some c)) = RUNNING"
  using assms by (auto simp: is_terminal_def resume_def pause_def execute_prologue_def Let_def)

text \<open>
  The theorem at a COMPLETED context.
\<close>

theorem terminal_states_guarded_by_resume_only_witness:
  "is_terminal (state (example_context COMPLETED 1 [])) \<and>
   resume example_settings example_env eager_policy () (example_context COMPLETED 1 []) =
     Some \<lparr>result = Inl (AgentExecutionError ''Cannot resume strand that is not paused''
              [(''strand_id'', JStr ''strand-1''), (''state'', JStr ''completed'')]),
           final_context = example_context COMPLETED 1 [], world = (), step_calls = 0\<rparr> \<and>
   state (pause (example_context COMPLETED 1 [])) = PAUSED \<and>
   state (execute_prologue example_settings example_env ''more'' (Some (example_context COMPLETED 1 []))) = RUNNING"
proof -
  have h: "is_terminal (state (example_context COMPLETED 1 []))"
    by (simp add: is_terminal_def example_context_def)
  show ?thesis
    using h terminal_states_guarded_by_resume_only[OF h, of example_settings example_env eager_policy "()" "''more''"]
    by (simp add: example_context_def)
qed

text \<open>
  C7 as stated fails: a COMPLETED context is paused, and is executed again for two
  more steps.
\<close>

theorem completed_context_runs_again:
  "is_terminal (state (example_context COMPLETED 1 [])) \<and>
   state (pause (example_context COMPLETED 1 [])) = PAUSED \<and>
   state (execute_prologue example_settings example_env ''more''
            (Some (example_context COMPLETED 1 []))) = RUNNING \<and>
   map_option step_calls
     (execute example_settings example_env eager_policy () ''more''
        (Some (example_context COMPLETED 1 [])) None) = Some 2"
  by (simp add: is_terminal_def pause_def example_defs execute_loop.simps)

section \<open>Retries of the Bedrock service\<close>

lemma invoke_model_body_not_retryable:
  "fst (invoke_model_body endpoint net) = Inl e \<Longrightarrow> \<not> retry_if_exception_type e"
  by (auto simp: invoke_model_body_def Let_def split: sum.splits exn.splits)

lemma invoke_model_body_calls:
  "endpoint_calls (snd (invoke_model_body endpoint net)) = Suc (endpoint_calls net) \<and>
   sleeps (snd (invoke_model_body endpoint net)) = sleeps net"
  by (auto simp: invoke_model_body_def Let_def split: sum.splits exn.splits)

lemma retry_loop_not_retryable:
  assumes "\<And>e. fst (f net) = Inl e \<Longrightarrow> \<not> retryable e"
  shows "retry_loop retryable wait f attempt left net = f net"
proof (cases left)
  case 0
  then show ?thesis by simp
next
  case (Suc l)
  show ?thesis
  proof (cases "f net")
    case (Pair r net')
    then show ?thesis
      using assms Suc by (cases r) auto
  qed
qed

lemma invoke_model_never_retries:
  "invoke_model endpoint net = invoke_model_body endpoint net"
  unfolding invoke_model_def retry_def
  by (rule retry_loop_not_retryable) (rule invoke_model_body_not_retryable)

lemma invoke_model_one_attempt:
  "endpoint_calls (snd (invoke_model endpoint net)) = Suc (endpoint_calls net) \<and>
   sleeps (snd (invoke_model endpoint net)) = sleeps net"
  by (simp add: invoke_model_never_retries invoke_model_body_calls)

text \<open>
  C1. The claim asks that two transient failures followed by a success give the success
  after three attempts. \<^verbatim>\<open>BedrockService.invoke_model\<close> does not: its own
  \<^verbatim>\<open>except\<close> clauses turn every \<^verbatim>\<open>ClientError\<close> and every other exception into a
  \<^verbatim>\<open>BedrockError\<close> before the decorator sees it, and the decorator retries only
  \<^verbatim>\<open>ClientError\<close> and \<^verbatim>\<open>ConnectionError\<close>. On an endpoint that is throttled twice and
  then answers, the call makes one attempt, sleeps never, and raises.
\<close>

theorem invoke_model_gives_up_on_first_throttle:
  "invoke_model throttled_twice net0 =
     (Inl (BedrockError ''Bedrock model invocation failed: Rate exceeded''
             [(''error_code'', JStr ''ThrottlingException''),
              (''error_message'', JStr ''Rate exceeded'')]),
      \<lparr>endpoint_calls = 1, sleeps = []\<rparr>)"
  by (simp add: invoke_model_never_retries invoke_model_body_def throttled_twice_def net0_def
      error_message_def error_code_def client_error_details_def)

text \<open>
  The second half of C1 holds: a failure that is not transient is attempted once and
  raised at once. And the decorator does retry where the body lets an exception through,
  as \<^verbatim>\<open>invoke_agent\<close> does for a \<^verbatim>\<open>ConnectionError\<close>: three attempts, with delays of
  2 and 2 seconds.
\<close>

lemma invoke_model_non_transient_once:
  "invoke_model access_denied net0 =
     (Inl (BedrockError ''Bedrock model invocation failed: Not authorized''
             [(''error_code'', JStr ''AccessDeniedException''),
              (''error_message'', JStr ''Not authorized'')]),
      \<lparr>endpoint_calls = 1, sleeps = []\<rparr>)"
  by (simp add: invoke_model_never_retries invoke_model_body_def access_denied_def net0_def
      error_message_def error_code_def client_error_details_def)

lemma invoke_agent_retries_connection_errors:
  "invoke_agent configured_settings connection_lost_twice ''session-1'' True net0 =
     (Inr [(''completion'', JStr ''Hello''), (''traces'', JList []), (''session_id'', JStr ''session-1'')],
      \<lparr>endpoint_calls = 3, sleeps = [2, 2]\<rparr>)"
  by (simp add: invoke_agent_def retry_def numeral_2_eq_2 invoke_agent_body_def
      configured_settings_def connection_lost_twice_def net0_def not_configured_def
      wait_exponential_def completion_text_def collected_traces_def)

text \<open>
  C8. When the agent id or the alias id is not configured, \<^verbatim>\<open>invoke_agent\<close> raises
  a \<^verbatim>\<open>BedrockError\<close> naming the missing configuration, and when the knowledge base id
  is not configured \<^verbatim>\<open>retrieve_from_knowledge_base\<close> does: in both the trace of the call
  is unchanged, so the endpoint was not called and nothing was slept or retried.
\<close>

theorem missing_configuration_fails_before_the_endpoint:
  "(not_configured (bedrock_agent_id s) \<or> not_configured (bedrock_agent_alias_id s) \<longrightarrow>
      invoke_agent s agent_endpoint session enable_trace net =
        (Inl (BedrockError ''Bedrock Agent ID and Alias ID must be configured''
                [(''agent_id'', opt_str (bedrock_agent_id s))]), net)) \<and>
   (not_configured (bedrock_knowledge_base_id s) \<longrightarrow>
      retrieve_from_knowledge_base s kb_endpoint net =
        (Inl (BedrockError ''Knowledge Base ID must be configured''
                [(''knowledge_base_id'', JNone)]), net))"
  by (simp add: invoke_agent_def retry_def numeral_2_eq_2 invoke_agent_body_def
      retrieve_from_knowledge_base_def)

text \<open>
  The theorem at settings with no agent id and an empty knowledge base id.
\<close>

theorem missing_configuration_fails_before_the_endpoint_witness:
  "(not_configured (bedrock_agent_id example_settings) \<or>
    not_configured (bedrock_agent_alias_id example_settings)) \<and>
   invoke_agent example_settings connection_lost_twice ''session-1'' True net0 =
     (Inl (BedrockError ''Bedrock Agent ID and Alias ID must be configured''
             [(''agent_id'', JNone)]), net0) \<and>
   not_configured (bedrock_knowledge_base_id example_settings) \<and>
   retrieve_from_knowledge_base example_settings (\<lambda>k. Inr None) net0 =
     (Inl (BedrockError ''Knowledge Base ID must be configured''
             [(''knowledge_base_id'', JNone)]), net0)"
proof -
  have h1: "not_configured (bedrock_agent_id example_settings) \<or>
            not_configured (bedrock_agent_alias_id example_settings)"
    by (simp add: not_configured_def example_settings_def)
  have h2: "not_configured (bedrock_knowledge_base_id example_settings)"
    by (simp add: not_configured_def example_settings_def)
  have o: "opt_str (bedrock_agent_id example_settings) = JNone"
    by (simp add: opt_str_def example_settings_def)
  show ?thesis
    using h1 h2 o
      missing_configuration_fails_before_the_endpoint[of example_settings connection_lost_twice
        "''session-1''" True net0 "\<lambda>k. Inr None"]
    by simp
qed

section \<open>The continuation test\<close>

lemma lower_finished: "lower ''Assessment Complete'' = ''assessment complete''"
  by code_simp

lemma contains_finished: "contains ''assessment complete'' ''assessment complete''"
  by (simp add: startswith_def)

lemma finished_phrase:
  "list_ex (contains (lower ''Assessment Complete'')) completion_phrases"
  unfolding lower_finished completion_phrases_def
  by (simp add: contains_finished del: contains.simps)

lemma update_absent_key: "map_of xs k = None \<Longrightarrow> AList.update k v xs = xs @ [(k, v)]"
  by (induction xs) (auto split: if_splits)

lemma appended_differs: "c\<lparr>variables := variables c @ [kv]\<rparr> \<noteq> c"
proof
  assume "c\<lparr>variables := variables c @ [kv]\<rparr> = c"
  then have "variables (c\<lparr>variables := variables c @ [kv]\<rparr>) = variables c" by simp
  then show False by simp
qed

lemma finished_announces: "announces_completion finished_context"
  by (simp add: announces_completion_def last_assistant_def finished_context_def finished_phrase
      del: contains.simps)

text \<open>
  C6, as amended. What \<^verbatim>\<open>LearningAgent.should_continue\<close> returns and what it does to
  the context, in each of its three cases. When \<^verbatim>\<open>learning_complete\<close> is a variable, it
  returns the negation of its truth value and leaves the context as it was. When it is
  not, and the last assistant message contains a completion phrase, it returns false and
  appends \<^verbatim>\<open>learning_complete = True\<close> to the variables, changing nothing else: the
  context is no longer the one it was given. In every other case it returns
  \<^verbatim>\<open>iteration < max_iterations\<close> and leaves the context as it was.
\<close>

theorem should_continue_exact:
  "(map_of (variables c) ''learning_complete'' = Some v \<longrightarrow>
      LearningAgent_should_continue c = (\<not> truthy v, c)) \<and>
   (map_of (variables c) ''learning_complete'' = None \<and> announces_completion c \<longrightarrow>
      LearningAgent_should_continue c =
        (False, c\<lparr>variables := variables c @ [(''learning_complete'', JBool True)]\<rparr>) \<and>
      snd (LearningAgent_should_continue c) \<noteq> c) \<and>
   (map_of (variables c) ''learning_complete'' = None \<and> \<not> announces_completion c \<longrightarrow>
      LearningAgent_should_continue c = (iteration c < max_iterations c, c))"
proof (intro conjI impI)
  assume "map_of (variables c) ''learning_complete'' = Some v"
  then show "LearningAgent_should_continue c = (\<not> truthy v, c)"
    by (simp add: LearningAgent_should_continue_def)
next
  assume a: "map_of (variables c) ''learning_complete'' = None \<and> announces_completion c"
  then show w: "LearningAgent_should_continue c =
        (False, c\<lparr>variables := variables c @ [(''learning_complete'', JBool True)]\<rparr>)"
    by (auto simp: LearningAgent_should_continue_def announces_completion_def last_assistant_def
        Let_def update_absent_key split: list.splits simp del: contains.simps)
  show "snd (LearningAgent_should_continue c) \<noteq> c"
    unfolding w by (simp add: appended_differs)
next
  assume "map_of (variables c) ''learning_complete'' = None \<and> \<not> announces_completion c"
  then show "LearningAgent_should_continue c = (iteration c < max_iterations c, c)"
    by (auto simp: LearningAgent_should_continue_def announces_completion_def last_assistant_def
        Let_def split: list.splits simp del: contains.simps)
qed

text \<open>
  The theorem at a context with the flag set, at one whose last assistant message
  announces completion, and at one with no assistant message.
\<close>

theorem should_continue_exact_witness:
  "map_of (variables (example_context RUNNING 1 [(''learning_complete'', JBool True)]))
     ''learning_complete'' = Some (JBool True) \<and>
   LearningAgent_should_continue (example_context RUNNING 1 [(''learning_complete'', JBool True)]) =
     (False, example_context RUNNING 1 [(''learning_complete'', JBool True)]) \<and>
   map_of (variables finished_context) ''learning_complete'' = None \<and>
   announces_completion finished_context \<and>
   LearningAgent_should_continue finished_context =
     (False, finished_context\<lparr>variables := [(''learning_complete'', JBool True)]\<rparr>) \<and>
   snd (LearningAgent_should_continue finished_context) \<noteq> finished_context \<and>
   map_of (variables (example_context RUNNING 1 [])) ''learning_complete'' = None \<and>
   \<not> announces_completion (example_context RUNNING 1 []) \<and>
   LearningAgent_should_continue (example_context RUNNING 1 []) = (True, example_context RUNNING 1 [])"
proof -
  let ?c1 = "example_context RUNNING 1 [(''learning_complete'', JBool True)]"
  let ?c3 = "example_context RUNNING 1 []"
  have h1: "map_of (variables ?c1) ''learning_complete'' = Some (JBool True)"
    by (simp add: example_context_def)
  have h2: "map_of (variables finished_context) ''learning_complete'' = None"
    by (simp add: finished_context_def)
  have h3: "map_of (variables ?c3) ''learning_complete'' = None"
    by (simp add: example_context_def)
  have h4: "\<not> announces_completion ?c3"
    by (simp add: announces_completion_def last_assistant_def example_context_def)
  have v: "finished_context\<lparr>variables := variables finished_context @ [(''learning_complete'', JBool True)]\<rparr> =
           finished_context\<lparr>variables := [(''learning_complete'', JBool True)]\<rparr>"
    by (simp add: finished_context_def)
  have i: "iteration ?c3 < max_iterations ?c3"
    by (simp add: example_context_def)
  from h1 should_continue_exact[of ?c1 "JBool True"]
  have a: "LearningAgent_should_continue ?c1 = (False, ?c1)"
    by simp
  from h2 finished_announces should_continue_exact[of finished_context]
  have b: "LearningAgent_should_continue finished_context =
             (False, finished_context\<lparr>variables := [(''learning_complete'', JBool True)]\<rparr>)"
    and b': "snd (LearningAgent_should_continue finished_context) \<noteq> finished_context"
    unfolding v by blast+
  from h3 h4 i should_continue_exact[of ?c3]
  have c: "LearningAgent_should_continue ?c3 = (True, ?c3)"
    by simp
  from h1 a h2 finished_announces b b' h3 h4 c show ?thesis by blast
qed

text \<open>
  C6 as stated fails: on a context whose last assistant message contains a completion
  phrase, \<^verbatim>\<open>should_continue\<close> writes to the variables.
\<close>

theorem should_continue_sets_completion_flag:
  "LearningAgent_should_continue finished_context =
     (False, finished_context\<lparr>variables := [(''learning_complete'', JBool True)]\<rparr>) \<and>
   snd (LearningAgent_should_continue finished_context) \<noteq> finished_context"
  by (simp add: LearningAgent_should_continue_def finished_context_def finished_phrase
      del: contains.simps)

section \<open>Text of a model response\<close>

lemma text_items_dicts:
  "text_items (map JDict bs) =
     Inr (map (\<lambda>b. case map_of b ''text'' of None \<Rightarrow> JStr [] | Some t \<Rightarrow> t) (filter is_text_block bs))"
  by (induction bs) (simp_all add: is_text_block_def)

lemma str_join_texts:
  "list_all text_is_str bs \<Longrightarrow>
   str_join i (map (\<lambda>b. case map_of b ''text'' of None \<Rightarrow> JStr [] | Some t \<Rightarrow> t) bs) =
     Inr (concat (map block_text bs))"
  by (induction bs arbitrary: i)
     (auto simp: text_is_str_def block_text_def split: option.splits jv.splits)

lemma strip_decomposition:
  "s = takeWhile is_space s @ strip s @ rev (takeWhile is_space (rev (dropWhile is_space s)))"
proof -
  let ?d = "dropWhile is_space s"
  have "rev (takeWhile is_space (rev ?d) @ dropWhile is_space (rev ?d)) = ?d"
    by (simp only: takeWhile_dropWhile_id rev_rev_ident)
  then have "strip s @ rev (takeWhile is_space (rev ?d)) = ?d"
    by (simp only: rev_append strip_def)
  moreover have "takeWhile is_space s @ ?d = s"
    by (rule takeWhile_dropWhile_id)
  ultimately show ?thesis by metis
qed

lemma strip_ends:
  assumes "strip s \<noteq> []"
  shows "\<not> is_space (hd (strip s)) \<and> \<not> is_space (last (strip s))"
proof -
  let ?d = "dropWhile is_space s"
  let ?x = "dropWhile is_space (rev ?d)"
  from assms have x: "?x \<noteq> []" by (simp add: strip_def)
  then have "\<not> is_space (hd ?x)" by (rule hd_dropWhile)
  then have l: "\<not> is_space (last (strip s))"
    using x by (simp add: strip_def last_rev)
  have "rev (takeWhile is_space (rev ?d) @ dropWhile is_space (rev ?d)) = ?d"
    by (simp only: takeWhile_dropWhile_id rev_rev_ident)
  then have d: "strip s @ rev (takeWhile is_space (rev ?d)) = ?d"
    by (simp only: rev_append strip_def)
  with assms have n: "?d \<noteq> []" by (metis Nil_is_append_conv)
  then have "\<not> is_space (hd ?d)" by (rule hd_dropWhile)
  moreover from d assms have "hd ?d = hd (strip s)" by (metis hd_append2)
  ultimately show ?thesis using l by simp
qed

lemma strip_surrounding:
  "\<exists>pre post. s = pre @ strip s @ post \<and> list_all is_space pre \<and> list_all is_space post \<and>
     (strip s = [] \<or> (\<not> is_space (hd (strip s)) \<and> \<not> is_space (last (strip s))))"
proof -
  have a: "list_all is_space (takeWhile is_space s)"
    by (simp add: list_all_iff) (meson set_takeWhileD)
  have b: "list_all is_space (rev (takeWhile is_space (rev (dropWhile is_space s))))"
    by (simp add: list_all_iff) (meson set_takeWhileD)
  show ?thesis
    using strip_decomposition[of s] a b strip_ends[of s] by blast
qed

lemma text_items_dicts_only:
  "text_items bs = Inr ts \<Longrightarrow> \<exists>blocks. bs = map JDict blocks"
proof (induction bs arbitrary: ts)
  case Nil
  then show ?case by simp
next
  case (Cons b bs)
  show ?case
  proof (cases b)
    case (JDict d)
    with Cons.prems obtain ts' where "text_items bs = Inr ts'"
      by (auto split: sum.splits)
    from Cons.IH[OF this] obtain blocks where "bs = map JDict blocks" by blast
    with JDict have "b # bs = map JDict (d # blocks)" by simp
    then show ?thesis by (rule exI)
  qed (use Cons.prems in simp_all)
qed

lemma str_join_strs_only:
  "str_join i (map (\<lambda>b. case map_of b ''text'' of None \<Rightarrow> JStr [] | Some t \<Rightarrow> t) ds) = Inr t \<Longrightarrow>
   list_all text_is_str ds"
proof (induction ds arbitrary: i t)
  case Nil
  then show ?case by simp
next
  case (Cons d ds)
  let ?v = "case map_of d ''text'' of None \<Rightarrow> JStr [] | Some t \<Rightarrow> t"
  let ?rest = "map (\<lambda>b. case map_of b ''text'' of None \<Rightarrow> JStr [] | Some t \<Rightarrow> t) ds"
  from Cons.prems have p: "str_join i (?v # ?rest) = Inr t" by simp
  show ?case
  proof (cases ?v)
    case (JStr s)
    with p obtain r where "str_join (Suc i) ?rest = Inr r"
      by (auto split: sum.splits)
    from Cons.IH[OF this] have "list_all text_is_str ds" .
    moreover from JStr have "text_is_str d"
      by (auto simp: text_is_str_def split: option.splits)
    ultimately show ?thesis by simp
  qed (use p in simp_all)
qed

text \<open>
  Which endpoint bodies reach the agent as a response: the service returns a body that is
  an object whose \<^verbatim>\<open>usage\<close> is absent or an object, and then a body without
  \<^verbatim>\<open>content\<close> gives the empty text. On any other body the success log line of the
  service raises, as on \<^verbatim>\<open>{"usage": null}\<close>, and the agent never sees a response.
\<close>

lemma service_returns_object_body:
  assumes "endpoint (endpoint_calls net) = Inr (JDict d)"
    and "map_of d ''usage'' = None \<or> (\<exists>u. map_of d ''usage'' = Some (JDict u))"
  shows "fst (invoke_model endpoint net) = Inr d"
  using assms
  by (auto simp: invoke_model_never_retries invoke_model_body_def read_usage_def Let_def)

lemma agent_text_of_endpoint_body:
  assumes "endpoint (endpoint_calls net) = Inr (JDict d)"
    and "map_of d ''usage'' = None \<or> (\<exists>u. map_of d ''usage'' = Some (JDict u))"
    and "map_of d ''content'' = None"
  shows "agent_invoke_model (fst (invoke_model endpoint net)) = Inr []"
proof -
  have "fst (invoke_model endpoint net) = Inr d"
    using assms(1) assms(2) by (rule service_returns_object_body)
  with assms(3) show ?thesis
    by (simp add: agent_invoke_model_def)
qed

lemma service_raises_on_null_usage:
  "fst (invoke_model (\<lambda>k. Inr (JDict [(''usage'', JNone)])) net0) =
     Inl (BedrockError (''Unexpected error: '' @ exn_str (no_attribute JNone ''get''))
            [(''error'', JStr (exn_str (no_attribute JNone ''get'')))])"
  by (simp add: invoke_model_never_retries invoke_model_body_def read_usage_def Let_def)

text \<open>
  C10. For a response with no \<^verbatim>\<open>content\<close> key the agent's \<^verbatim>\<open>invoke_model\<close> returns
  the empty string and raises nothing. For a response whose \<^verbatim>\<open>content\<close> is a list of
  blocks (dicts) in which every text block's \<^verbatim>\<open>text\<close> is a string or absent, it returns
  the texts of the blocks of type \<^verbatim>\<open>"text"\<close>, concatenated in order and stripped; and
  whenever it returns at all on a list, the list was of that kind and the text returned
  is that one. Stripping removes whitespace at the two ends and nothing else: the joined
  text is whitespace, then the stripped text, then whitespace, and the stripped text
  neither starts nor ends with whitespace.
\<close>

theorem agent_invoke_model_text:
  "(map_of response ''content'' = None \<longrightarrow> agent_invoke_model (Inr response) = Inr []) \<and>
   (map_of response ''content'' = Some (JList (map JDict blocks)) \<and>
    list_all text_is_str (filter is_text_block blocks) \<longrightarrow>
      agent_invoke_model (Inr response) =
        Inr (strip (concat (map block_text (filter is_text_block blocks))))) \<and>
   (map_of response ''content'' = Some (JList bs) \<and> agent_invoke_model (Inr response) = Inr returned \<longrightarrow>
      (\<exists>blocks. bs = map JDict blocks \<and> list_all text_is_str (filter is_text_block blocks) \<and>
         returned = strip (concat (map block_text (filter is_text_block blocks))))) \<and>
   (\<exists>pre post. joined = pre @ strip joined @ post \<and> list_all is_space pre \<and> list_all is_space post \<and>
      (strip joined = [] \<or> (\<not> is_space (hd (strip joined)) \<and> \<not> is_space (last (strip joined)))))"
proof (intro conjI impI)
  assume "map_of response ''content'' = None"
  then show "agent_invoke_model (Inr response) = Inr []"
    by (simp add: agent_invoke_model_def)
next
  assume "map_of response ''content'' = Some (JList (map JDict blocks)) \<and>
    list_all text_is_str (filter is_text_block blocks)"
  then show "agent_invoke_model (Inr response) =
        Inr (strip (concat (map block_text (filter is_text_block blocks))))"
    by (simp add: agent_invoke_model_def text_items_dicts str_join_texts)
next
  assume a: "map_of response ''content'' = Some (JList bs) \<and> agent_invoke_model (Inr response) = Inr returned"
  then obtain ts where ts: "text_items bs = Inr ts"
    by (auto simp: agent_invoke_model_def split: sum.splits)
  from text_items_dicts_only[OF this] obtain blocks where b: "bs = map JDict blocks" by blast
  let ?items = "map (\<lambda>b. case map_of b ''text'' of None \<Rightarrow> JStr [] | Some t \<Rightarrow> t) (filter is_text_block blocks)"
  from a b obtain j where j: "str_join 0 ?items = Inr j"
    by (auto simp: agent_invoke_model_def text_items_dicts split: sum.splits)
  from str_join_strs_only[OF j] have wt: "list_all text_is_str (filter is_text_block blocks)" .
  from a have a1: "map_of response ''content'' = Some (JList bs)"
    and a2: "agent_invoke_model (Inr response) = Inr returned" by simp_all
  from a2 have "returned = strip (concat (map block_text (filter is_text_block blocks)))"
    by (simp add: agent_invoke_model_def a1 b text_items_dicts str_join_texts[OF wt])
  with b wt show "\<exists>blocks. bs = map JDict blocks \<and> list_all text_is_str (filter is_text_block blocks) \<and>
         returned = strip (concat (map block_text (filter is_text_block blocks)))"
    by blast
next
  show "\<exists>pre post. joined = pre @ strip joined @ post \<and> list_all is_space pre \<and> list_all is_space post \<and>
      (strip joined = [] \<or> (\<not> is_space (hd (strip joined)) \<and> \<not> is_space (last (strip joined))))"
    by (rule strip_surrounding)
qed

text \<open>
  The theorem at a body without content and at one with three text blocks and an image,
  padded with spaces, U+00A0, U+0085 and a line feed.
\<close>

theorem agent_invoke_model_text_witness:
  "map_of [(''usage'', JDict [])] ''content'' = None \<and>
   agent_invoke_model (Inr [(''usage'', JDict [])]) = Inr [] \<and>
   map_of spaced_response ''content'' = Some (JList (map JDict spaced_blocks)) \<and>
   list_all text_is_str (filter is_text_block spaced_blocks) \<and>
   agent_invoke_model (Inr spaced_response) = Inr (''Hello wide'' @ [CHR 0xA0] @ ''world'') \<and>
   (\<exists>blocks. map JDict spaced_blocks = map JDict blocks \<and>
      list_all text_is_str (filter is_text_block blocks) \<and>
      ''Hello wide'' @ [CHR 0xA0] @ ''world'' =
        strip (concat (map block_text (filter is_text_block blocks))))"
proof -
  have h1: "map_of [(''usage'', JDict [])] ''content'' = None"
    by simp
  have h2: "map_of spaced_response ''content'' = Some (JList (map JDict spaced_blocks))"
    by (simp add: spaced_response_def)
  have h3: "list_all text_is_str (filter is_text_block spaced_blocks)"
    by (simp add: spaced_blocks_def is_text_block_def text_is_str_def)
  have e: "strip (concat (map block_text (filter is_text_block spaced_blocks))) =
           ''Hello wide'' @ [CHR 0xA0] @ ''world''"
    by code_simp
  note t1 = agent_invoke_model_text[where response = "[(''usage'', JDict [])]"]
  note t2 = agent_invoke_model_text[where response = spaced_response and blocks = spaced_blocks
      and bs = "map JDict spaced_blocks" and returned = "''Hello wide'' @ [CHR 0xA0] @ ''world''"]
  from t1 h1 have a: "agent_invoke_model (Inr [(''usage'', JDict [])]) = Inr []"
    by blast
  from t2 h2 h3 have b: "agent_invoke_model (Inr spaced_response) =
      Inr (strip (concat (map block_text (filter is_text_block spaced_blocks))))"
    by blast
  then have b': "agent_invoke_model (Inr spaced_response) = Inr (''Hello wide'' @ [CHR 0xA0] @ ''world'')"
    by (simp only: e)
  from t2 h2 b' have c: "\<exists>blocks. map JDict spaced_blocks = map JDict blocks \<and>
      list_all text_is_str (filter is_text_block blocks) \<and>
      ''Hello wide'' @ [CHR 0xA0] @ ''world'' =
        strip (concat (map block_text (filter is_text_block blocks)))"
    by blast
  from h1 a h2 h3 b' c show ?thesis by blast
qed

section \<open>Round trip through the transport shape\<close>

declare str_nat.simps [simp del]

lemma of_char_digit: "d < 10 \<Longrightarrow> (of_char (digit d) :: nat) = 48 + d"
  by (simp add: digit_def)

lemma is_digit_digit: "d < 10 \<Longrightarrow> is_digit (digit d)"
  by (simp add: is_digit_def of_char_digit)

lemma digits_value_snoc:
  "digits_value (s @ [c]) = 10 * digits_value s + ((of_char c :: nat) - 48)"
  by (simp add: digits_value_def)

lemma str_nat_digits: "list_all is_digit (str_nat n)"
proof (induction n rule: str_nat.induct)
  case (1 n)
  show ?case
  proof (cases "n < 10")
    case True
    then show ?thesis by (subst str_nat.simps) (simp add: is_digit_digit)
  next
    case False
    with 1 show ?thesis by (subst str_nat.simps) (simp add: is_digit_digit)
  qed
qed

lemma str_nat_value: "digits_value (str_nat n) = n"
proof (induction n rule: str_nat.induct)
  case (1 n)
  show ?case
  proof (cases "n < 10")
    case True
    then show ?thesis
      by (subst str_nat.simps) (simp add: digits_value_def of_char_digit)
  next
    case False
    with 1 show ?thesis
      by (subst str_nat.simps) (simp add: digits_value_snoc of_char_digit)
  qed
qed

lemma str_nat_length: "0 < w \<Longrightarrow> n < 10 ^ w \<Longrightarrow> length (str_nat n) \<le> w"
proof (induction n arbitrary: w rule: str_nat.induct)
  case (1 n)
  show ?case
  proof (cases "n < 10")
    case True
    with 1(2) show ?thesis by (subst str_nat.simps) simp
  next
    case False
    obtain v where w: "w = Suc v" using 1(2) by (cases w) auto
    from False 1(3) w have v: "0 < v" by (cases v) auto
    from 1(3) w have "n div 10 < 10 ^ v"
      by (simp add: div_less_iff_less_mult mult.commute)
    from 1(1)[OF False v this] show ?thesis
      using False w by (subst str_nat.simps) simp
  qed
qed

lemma digits_value_zeros: "digits_value (replicate k (CHR ''0'') @ s) = digits_value s"
proof -
  have "foldl (\<lambda>a c. 10 * a + ((of_char c :: nat) - 48)) 0 (replicate k (CHR ''0'')) = 0"
    by (induction k) simp_all
  then show ?thesis by (simp add: digits_value_def)
qed

lemma pad_length: "0 < w \<Longrightarrow> n < 10 ^ w \<Longrightarrow> length (pad w n) = w"
  using str_nat_length[of w n] by (simp add: pad_def)

lemma zeros_digits: "list_all is_digit (replicate k (CHR ''0''))"
  by (induction k) (simp_all add: is_digit_def)

lemma pad_digits: "list_all is_digit (pad w n)"
  by (simp add: pad_def str_nat_digits zeros_digits)

lemma pad_value: "digits_value (pad w n) = n"
  by (simp add: pad_def digits_value_zeros str_nat_value)

lemma read_digits_pad:
  "0 < w \<Longrightarrow> n < 10 ^ w \<Longrightarrow> read_digits w (pad w n @ rest) = Some (n, rest)"
  by (simp add: read_digits_def pad_length pad_digits pad_value)

lemma read_field_pad:
  "0 < w \<Longrightarrow> n < 10 ^ w \<Longrightarrow> read_field w sep (pad w n @ sep # rest) = Some (n, rest)"
  by (simp add: read_field_def read_digits_pad)

lemma read_fraction_pad:
  "us < 1000000 \<Longrightarrow> read_fraction (CHR ''.'' # pad 6 us) = Some us"
  using read_digits_pad[of 6 us "[]"] by (simp add: read_fraction_def)

lemma fromisoformat_isoformat:
  assumes "valid_datetime t"
  shows "fromisoformat (isoformat t) = Some t"
proof -
  from assms have b: "year t < 10 ^ 4" "month t < 10 ^ 2" "day t < 10 ^ 2" "hour t < 10 ^ 2"
    "minute t < 10 ^ 2" "second t < 10 ^ 2" "microsecond t < 1000000"
    by (simp_all add: valid_datetime_def)
  have r: "\<lparr>year = year t, month = month t, day = day t, hour = hour t, minute = minute t,
           second = second t, microsecond = microsecond t\<rparr> = t"
    by simp
  show ?thesis
  proof (cases "microsecond t = 0")
    case True
    have "fromisoformat (isoformat t) =
          Some \<lparr>year = year t, month = month t, day = day t, hour = hour t, minute = minute t,
                 second = second t, microsecond = 0\<rparr>"
      using b(1-6) True
      by (simp add: isoformat_def fromisoformat_def read_field_pad
          read_digits_pad[where rest = "[]", simplified] read_fraction_def)
    with True r show ?thesis by simp
  next
    case False
    have "fromisoformat (isoformat t) =
          Some \<lparr>year = year t, month = month t, day = day t, hour = hour t, minute = minute t,
                 second = second t, microsecond = microsecond t\<rparr>"
      using b False
      by (simp add: isoformat_def fromisoformat_def read_field_pad read_digits_pad
          read_fraction_pad)
    with r show ?thesis by simp
  qed
qed

lemma state_of_value_state_value: "state_of_value (state_value s) = Some s"
  by (cases s) (simp_all add: state_of_value_def)

lemma message_round_trip:
  "valid_datetime (timestamp m) \<Longrightarrow> message_from_dict (JDict (message_to_dict m)) = Some m"
  by (simp add: message_from_dict_def message_to_dict_def fromisoformat_isoformat)

lemma messages_round_trip:
  "list_all (\<lambda>m. valid_datetime (timestamp m)) ms \<Longrightarrow>
   those (map (\<lambda>m. message_from_dict (JDict (message_to_dict m))) ms) = Some ms"
  by (induction ms) (simp_all add: message_round_trip)

lemma opt_time_round_trip:
  "valid_opt_time t \<Longrightarrow> time_of_opt (Some (opt_time t)) = Some t"
  by (cases t) (simp_all add: valid_opt_time_def time_of_opt_def opt_time_def fromisoformat_isoformat)

lemma opt_str_round_trip: "str_of_opt (Some (opt_str e)) = Some e"
  by (cases e) (simp_all add: str_of_opt_def opt_str_def)

text \<open>
  C9. A context whose timestamps are datetimes (their fields within the ranges of
  \<^verbatim>\<open>datetime\<close>) is read back from \<^verbatim>\<open>to_dict\<close>'s record exactly: the messages in
  their order with role, text, timestamp (to the microsecond) and metadata, the variables,
  and every other field. The reader is the one modelled from the spec;
  \<^verbatim>\<open>to_dict\<close> is the repository's.
\<close>

theorem context_round_trip:
  assumes "valid_context c"
  shows "context_from_dict (context_to_dict c) = Some c"
proof -
  from assms have m: "list_all (\<lambda>m. valid_datetime (timestamp m)) (messages c)"
    and s: "valid_opt_time (start_time c)" and e: "valid_opt_time (end_time c)"
    by (simp_all add: valid_context_def)
  show ?thesis
    by (simp add: context_from_dict_def context_to_dict_def state_of_value_state_value
        comp_def messages_round_trip[OF m] opt_time_round_trip[OF s] opt_time_round_trip[OF e]
        opt_str_round_trip)
qed

text \<open>
  The theorem at a context with two messages, one stamped with microseconds.
\<close>

theorem context_round_trip_witness:
  "valid_context transported_context \<and>
   context_from_dict (context_to_dict transported_context) = Some transported_context"
proof -
  have h: "valid_context transported_context"
    by (simp add: valid_context_def valid_opt_time_def valid_datetime_def transported_context_def
        t0_def t1_def t2_def)
  show ?thesis
    using h context_round_trip[OF h] by simp
qed

end
